theory Spec2Isabelle
  imports Main
begin

section \<open>Data model\<close>

text \<open>
  The entities of \<^verbatim>\<open>apps/web/ui/partners/program-application-sheet.tsx\<close>.
  An optional or nullable JavaScript value is an \<open>option\<close>; \<open>undefined\<close> and \<open>null\<close>
  are both \<open>None\<close>, since the source never tells them apart.
\<close>

record ProgramProps =
  program_id :: string
  program_slug :: string
  program_name :: string
  program_domain :: string
  program_logo :: "string option"
  program_termsUrl :: "string option"

record PartnerProps =
  partner_email :: "string option"
  partner_name :: string
  partner_website :: "string option"

text \<open>\<^verbatim>\<open>FormData\<close> (lines 24-29) and the object handed to \<^verbatim>\<open>executeAsync\<close>
  (lines 67-73): the form data spread, then the partner's identity and the program id.\<close>

record FormData =
  proposal :: string
  comments :: "string option"
  termsAgreement :: bool

record payload = FormData +
  email :: string
  name :: string
  website :: "string option"
  programId :: string

text \<open>
  Functions received as props are opaque to the component, so they are labels:
  a \<open>dispatch\<close> is a state setter (\<^verbatim>\<open>Dispatch<SetStateAction<boolean>>\<close>), either the
  one created by \<^verbatim>\<open>useState\<close> in \<^verbatim>\<open>useProgramApplicationSheet\<close> or one owned by some
  other parent; a \<open>callback\<close> names the parent's \<^verbatim>\<open>onSuccess\<close>.
\<close>

datatype dispatch = UseStateSetter | ParentSetter string

type_synonym callback = string

text \<open>\<^verbatim>\<open>ProgramApplicationSheetProps\<close> (lines 18-22); the hook takes it without
  \<^verbatim>\<open>setIsOpen\<close> (line 211).\<close>

record SheetHookProps =
  program :: "ProgramProps option"
  onSuccess :: "callback option"

record ProgramApplicationSheetProps = SheetHookProps +
  setIsOpen :: dispatch

text \<open>What the awaited server action resolved to: success, or a failure that may carry
  \<^verbatim>\<open>error.serverError\<close>.\<close>

datatype action_result = ActionSuccess | ActionFailure "string option"

text \<open>Everything the component does to the outside, in the order it does it.\<close>

datatype effect =
    SetIsOpen dispatch bool
  | Mutate string
  | ToastSuccess string
  | ToastError string
  | SetError string string
  | Invoke callback
  | ExecuteAsync payload
  | Invalid string string

datatype error = TypeError

datatype outcome = Returned | Threw error

section \<open>JavaScript truthiness\<close>

text \<open>\<^verbatim>\<open>!x\<close>, \<^verbatim>\<open>x && e\<close> and \<^verbatim>\<open>x || d\<close> on an optional string: \<^verbatim>\<open>undefined\<close>,
  \<^verbatim>\<open>null\<close> and the empty string are falsy.\<close>

definition truthy :: "string option \<Rightarrow> bool" where
  "truthy v = (case v of None \<Rightarrow> False | Some s \<Rightarrow> s \<noteq> [])"

definition or_else :: "string option \<Rightarrow> string \<Rightarrow> string" where
  "or_else v d = (case v of None \<Rightarrow> d | Some s \<Rightarrow> if s = [] then d else s)"

section \<open>The action callbacks (lines 49-62)\<close>

text \<open>
  \<^verbatim>\<open>onSuccess\<close>: close the panel, invalidate the cache entry of the program's slug, toast,
  call the parent's callback if there is one. \<^verbatim>\<open>program!.slug\<close> is a property read:
  with \<^verbatim>\<open>program\<close> undefined it throws after \<^verbatim>\<open>setIsOpen(false)\<close> has run.
\<close>

definition action_onSuccess :: "ProgramApplicationSheetProps \<Rightarrow> effect list \<times> outcome" where
  "action_onSuccess props =
     (case program props of
        None \<Rightarrow> ([SetIsOpen (setIsOpen props) False], Threw TypeError)
      | Some p \<Rightarrow>
          ([SetIsOpen (setIsOpen props) False,
            Mutate (''/api/partner-profile/programs/'' @ program_slug p),
            ToastSuccess ''Application submitted!'']
           @ (case onSuccess props of None \<Rightarrow> [] | Some cb \<Rightarrow> [Invoke cb]),
           Returned))"

definition action_onError :: "string option \<Rightarrow> effect list" where
  "action_onError serverError =
     [SetError ''root.serverError'' (or_else serverError ''Failed to submit application''),
      ToastError (or_else serverError ''Failed to submit application'')]"

text \<open>
  Modelled from the spec: \<^verbatim>\<open>useAction\<close> of next-safe-action is not in the source tree.
  \<^verbatim>\<open>executeAsync(payload)\<close> makes the one outbound call and, when it settles, runs the
  success callback on a success result and the error callback on a failure (spec 4.1,
  6). The callbacks are the ones above, closed over \<open>props\<close>.
\<close>

definition executeAsync ::
  "ProgramApplicationSheetProps \<Rightarrow> payload \<Rightarrow> action_result \<Rightarrow> effect list \<times> outcome" where
  "executeAsync props pl res =
     (case res of
        ActionSuccess \<Rightarrow>
          (ExecuteAsync pl # fst (action_onSuccess props), snd (action_onSuccess props))
      | ActionFailure serverError \<Rightarrow>
          (ExecuteAsync pl # action_onError serverError, Returned))"

section \<open>The submit handler (lines 64-74)\<close>

text \<open>Line 65 and lines 67-73: the guard, then the merged payload. \<open>None\<close> is the early
  \<^verbatim>\<open>return\<close>.\<close>

definition optional_email :: "PartnerProps option \<Rightarrow> string option" where
  "optional_email partner = (case partner of None \<Rightarrow> None | Some pa \<Rightarrow> partner_email pa)"

definition onSubmit_payload ::
  "ProgramProps option \<Rightarrow> PartnerProps option \<Rightarrow> FormData \<Rightarrow> payload option" where
  "onSubmit_payload prog partner data =
     (case prog of
        None \<Rightarrow> None
      | Some p \<Rightarrow>
          (case partner of
             None \<Rightarrow> None
           | Some pa \<Rightarrow>
               (case partner_email pa of
                  None \<Rightarrow> None
                | Some e \<Rightarrow>
                    if e = [] then None
                    else Some \<lparr>proposal = proposal data, comments = comments data,
                               termsAgreement = termsAgreement data,
                               email = e, name = partner_name pa,
                               website = partner_website pa,
                               programId = program_id p\<rparr>)))"

definition onSubmit ::
  "ProgramApplicationSheetProps \<Rightarrow> PartnerProps option \<Rightarrow> FormData \<Rightarrow> action_result
     \<Rightarrow> effect list \<times> outcome" where
  "onSubmit props partner data res =
     (case onSubmit_payload (program props) partner data of
        None \<Rightarrow> ([], Returned)
      | Some pl \<Rightarrow> executeAsync props pl res)"

section \<open>Field registration and validation\<close>

datatype field_value = Text string | Checked bool | Undefined

record rules =
  required :: bool
  validate :: "(field_value \<Rightarrow> bool) option"

text \<open>The \<^verbatim>\<open>register\<close> calls of the rendered form (lines 128, 146, 159-162). Nothing is
  rendered without a program (line 76), and the checkbox only under a truthy
  \<^verbatim>\<open>program.termsUrl\<close> (line 150).\<close>

definition registered :: "ProgramProps option \<Rightarrow> (string \<times> rules) list" where
  "registered prog =
     (case prog of
        None \<Rightarrow> []
      | Some p \<Rightarrow>
          [(''proposal'', \<lparr>required = True, validate = None\<rparr>),
           (''comments'', \<lparr>required = False, validate = None\<rparr>)]
          @ (if truthy (program_termsUrl p)
             then [(''termsAgreement'',
                    \<lparr>required = True, validate = Some (\<lambda>v. v = Checked True)\<rparr>)]
             else []))"

definition field_of :: "FormData \<Rightarrow> string \<Rightarrow> field_value" where
  "field_of data path =
     (if path = ''proposal'' then Text (proposal data)
      else if path = ''comments'' then (case comments data of None \<Rightarrow> Undefined | Some c \<Rightarrow> Text c)
      else if path = ''termsAgreement'' then Checked (termsAgreement data)
      else Undefined)"

text \<open>
  Modelled from the spec: the validators of react-hook-form are not in the source tree.
  Per-field validators run at submit time (spec 9); \<^verbatim>\<open>required\<close> rejects an empty value,
  which for a text field is the empty string and for a checkbox is unchecked, and
  \<^verbatim>\<open>validate\<close> rejects a value its function does not accept (spec 4.1, 8). A failing field
  gets one error, named after the rule that failed.
\<close>

fun is_empty_value :: "field_value \<Rightarrow> bool" where
  "is_empty_value (Text s) = (s = [])"
| "is_empty_value (Checked b) = (\<not> b)"
| "is_empty_value Undefined = True"

text \<open>Modelled from the spec: one field's validators (react-hook-form, not in the source
  tree), the required rule first, then the \<^verbatim>\<open>validate\<close> function (spec 4.1).\<close>

definition validateField :: "rules \<Rightarrow> field_value \<Rightarrow> string option" where
  "validateField r v =
     (if required r \<and> is_empty_value v then Some ''required''
      else case validate r of
             None \<Rightarrow> None
           | Some f \<Rightarrow> if f v then None else Some ''validate'')"

text \<open>Modelled from the spec: the validators of all registered fields, evaluated at
  submit time in registration order (react-hook-form, not in the source tree; spec 9).\<close>

fun validateForm :: "(string \<times> rules) list \<Rightarrow> FormData \<Rightarrow> (string \<times> string) list" where
  "validateForm [] data = []"
| "validateForm ((path, r) # fs) data =
     (case validateField r (field_of data path) of
        None \<Rightarrow> validateForm fs data
      | Some t \<Rightarrow> (path, t) # validateForm fs data)"

text \<open>
  Modelled from the spec: \<^verbatim>\<open>handleSubmit\<close> of react-hook-form is not in the source tree.
  On submit it validates the registered fields; a failure is surfaced on the offending
  fields and blocks submission, otherwise the handler runs on the data (spec 4.1, 7).
\<close>

definition handleSubmit ::
  "ProgramApplicationSheetProps \<Rightarrow> PartnerProps option \<Rightarrow> FormData \<Rightarrow> action_result
     \<Rightarrow> effect list \<times> outcome" where
  "handleSubmit props partner data res =
     (case validateForm (registered (program props)) data of
        [] \<Rightarrow> onSubmit props partner data res
      | e # es \<Rightarrow> (map (\<lambda>(path, t). Invalid path t) (e # es), Returned))"

section \<open>Reading a trace\<close>

fun calls :: "effect list \<Rightarrow> payload list" where
  "calls [] = []"
| "calls (ExecuteAsync pl # es) = pl # calls es"
| "calls (e # es) = calls es"

fun form_errors :: "effect list \<Rightarrow> string list" where
  "form_errors [] = []"
| "form_errors (Invalid path t # es) = path # form_errors es"
| "form_errors (SetError path m # es) = path # form_errors es"
| "form_errors (e # es) = form_errors es"

text \<open>Modelled from the spec: React's state cell is not in the source tree. The flag
  owned by the hook (spec 4.3) takes the value its own setter is called with and is
  untouched by every other effect, a call of some other parent's setter included.\<close>

fun reduce_isOpen :: "bool \<Rightarrow> effect \<Rightarrow> bool" where
  "reduce_isOpen cur (SetIsOpen d b) = (if d = UseStateSetter then b else cur)"
| "reduce_isOpen cur e = cur"

text \<open>Modelled from the spec: the hook's flag (spec 4.3) after a run of effects, from the
  value it had before.\<close>

definition isOpen_after :: "effect list \<Rightarrow> bool \<Rightarrow> bool" where
  "isOpen_after es cur = foldl reduce_isOpen cur es"

fun setIsOpen_calls :: "effect list \<Rightarrow> (dispatch \<times> bool) list" where
  "setIsOpen_calls [] = []"
| "setIsOpen_calls (SetIsOpen d b # es) = (d, b) # setIsOpen_calls es"
| "setIsOpen_calls (e # es) = setIsOpen_calls es"

fun mutated :: "effect list \<Rightarrow> string list" where
  "mutated [] = []"
| "mutated (Mutate k # es) = k # mutated es"
| "mutated (e # es) = mutated es"

fun success_toasts :: "effect list \<Rightarrow> string list" where
  "success_toasts [] = []"
| "success_toasts (ToastSuccess m # es) = m # success_toasts es"
| "success_toasts (e # es) = success_toasts es"

fun error_toasts :: "effect list \<Rightarrow> string list" where
  "error_toasts [] = []"
| "error_toasts (ToastError m # es) = m # error_toasts es"
| "error_toasts (e # es) = error_toasts es"

fun invoked :: "effect list \<Rightarrow> callback list" where
  "invoked [] = []"
| "invoked (Invoke cb # es) = cb # invoked es"
| "invoked (e # es) = invoked es"

section \<open>Rendering (lines 76-192)\<close>

record form_state =
  isSubmitting :: bool
  isSubmitSuccessful :: bool
  in_flight :: "payload list"

text \<open>Line 187.\<close>

definition button_loading :: "form_state \<Rightarrow> bool" where
  "button_loading fs = (isSubmitting fs \<or> isSubmitSuccessful fs)"

text \<open>What the returned tree holds that depends on props and form state: the heading,
  the two text areas with their error styling, the checkbox with the link it labels,
  and the submit button.\<close>

record view =
  heading :: string
  proposal_error_style :: bool
  comments_error_style :: bool
  terms_checkbox :: "string option"
  terms_error_style :: bool
  loading :: bool

definition ProgramApplicationSheetContent ::
  "ProgramApplicationSheetProps \<Rightarrow> string list \<Rightarrow> form_state \<Rightarrow> view option" where
  "ProgramApplicationSheetContent props errors fs =
     (case program props of
        None \<Rightarrow> None
      | Some p \<Rightarrow>
          Some \<lparr>heading = program_name p,
                proposal_error_style = (''proposal'' \<in> set errors),
                comments_error_style = (''comments'' \<in> set errors),
                terms_checkbox = (if truthy (program_termsUrl p) then program_termsUrl p else None),
                terms_error_style = (''termsAgreement'' \<in> set errors),
                loading = button_loading fs\<rparr>)"

section \<open>Calls that settle under a later render\<close>

text \<open>
  Modelled from the spec: which render's callbacks \<^verbatim>\<open>useAction\<close> runs is not in the source
  tree. The component renders again whenever its props or the partner profile change
  (spec 4.1, 6); every render, the one that returns \<^verbatim>\<open>null\<close> at line 76 included, has
  already handed \<^verbatim>\<open>useAction\<close> the callbacks closed over its own props (lines 49-62), and
  nothing cancels a call whose response comes late (spec 5, 9). So the call that the
  render with \<open>props\<close> makes may settle under the callbacks of a render with other
  props, \<open>settled\<close>.
\<close>

definition onSubmit_settled ::
  "ProgramApplicationSheetProps \<Rightarrow> ProgramApplicationSheetProps \<Rightarrow> PartnerProps option
     \<Rightarrow> FormData \<Rightarrow> action_result \<Rightarrow> effect list \<times> outcome" where
  "onSubmit_settled props settled partner data res =
     (case onSubmit_payload (program props) partner data of
        None \<Rightarrow> ([], Returned)
      | Some pl \<Rightarrow> executeAsync settled pl res)"

text \<open>Modelled from the spec: \<^verbatim>\<open>handleSubmit\<close> as above (react-hook-form, not in the source
  tree; spec 4.1, 7), for a call that settles under the render with \<open>settled\<close>.\<close>

definition handleSubmit_settled ::
  "ProgramApplicationSheetProps \<Rightarrow> ProgramApplicationSheetProps \<Rightarrow> PartnerProps option
     \<Rightarrow> FormData \<Rightarrow> action_result \<Rightarrow> effect list \<times> outcome" where
  "handleSubmit_settled props settled partner data res =
     (case validateForm (registered (program props)) data of
        [] \<Rightarrow> onSubmit_settled props settled partner data res
      | e # es \<Rightarrow> (map (\<lambda>(path, t). Invalid path t) (e # es), Returned))"

section \<open>The submit button over time\<close>

text \<open>
  Modelled from the spec: \<^verbatim>\<open>Button\<close> of \<^verbatim>\<open>@dub/ui\<close> and the form library's
  \<^verbatim>\<open>isSubmitting\<close> and \<^verbatim>\<open>isSubmitSuccessful\<close> flags are not in the source tree. The UI
  is single-threaded and event-driven, and its only suspension point is the awaited
  outbound call (spec 5). A click reaches the form only through the submit button that
  the component has rendered, and a button rendered loading is disabled (spec 4.1); the
  form is submitting from the click until the handler has returned, which for a
  submission that reached the call is when the call settles; a submit that ends with no
  error counts as successful, and one that ends in an error returns the form to idle
  (spec 4.1, state machine). The props and the partner profile are read at each click,
  so they may change between events.
\<close>

datatype event =
    Click ProgramApplicationSheetProps "PartnerProps option" FormData
  | Settle action_result

text \<open>Modelled from the spec: the form library's state on mount, idle with nothing in
  flight (spec 4.1, state machine).\<close>

definition useForm_initial :: form_state where
  "useForm_initial = \<lparr>isSubmitting = False, isSubmitSuccessful = False, in_flight = []\<rparr>"

text \<open>What \<^verbatim>\<open>useForm\<close> holds for the component (lines 38-47): the flags and the paths
  that carry an error.\<close>

record sheet_state =
  formState :: form_state
  fieldErrors :: "string list"

text \<open>Modelled from the spec: the component on mount, with the form idle and no field in
  error (spec 3, 4.1).\<close>

definition sheet_initial :: sheet_state where
  "sheet_initial = \<lparr>formState = useForm_initial, fieldErrors = []\<rparr>"

text \<open>Modelled from the spec: one event of the state machine
  \<^verbatim>\<open>idle -> submitting -> {success | error -> idle on retry}\<close> (spec 4.1). The click goes
  through what \<^verbatim>\<open>ProgramApplicationSheetContent\<close> has rendered from the current props and
  form state: with nothing rendered there is no button, and a button whose \<^verbatim>\<open>loading\<close>
  prop (line 187) is set does nothing. The registered validators, the guard and the
  payload of \<^verbatim>\<open>onSubmit\<close> and the error path set by the error callback are the source's.\<close>

fun step :: "sheet_state \<Rightarrow> event \<Rightarrow> sheet_state" where
  "step s (Click props partner data) =
     (case ProgramApplicationSheetContent props (fieldErrors s) (formState s) of
        None \<Rightarrow> s
      | Some v \<Rightarrow>
          if loading v then s
          else case validateForm (registered (program props)) data of
                 e # es \<Rightarrow>
                   \<lparr>formState = (formState s)\<lparr>isSubmitting := False,
                                               isSubmitSuccessful := False\<rparr>,
                    fieldErrors = map fst (e # es)\<rparr>
               | [] \<Rightarrow>
                   (case onSubmit_payload (program props) partner data of
                      None \<Rightarrow>
                        \<lparr>formState = (formState s)\<lparr>isSubmitting := False,
                                                    isSubmitSuccessful := True\<rparr>,
                         fieldErrors = []\<rparr>
                    | Some pl \<Rightarrow>
                        \<lparr>formState = (formState s)\<lparr>isSubmitting := True,
                                                    in_flight := in_flight (formState s) @ [pl]\<rparr>,
                         fieldErrors = []\<rparr>))"
| "step s (Settle res) =
     (case in_flight (formState s) of
        [] \<Rightarrow> s
      | pl # rest \<Rightarrow>
          \<lparr>formState = (formState s)\<lparr>isSubmitting := False,
                                      isSubmitSuccessful := (res = ActionSuccess),
                                      in_flight := rest\<rparr>,
           fieldErrors =
             (case res of
                ActionSuccess \<Rightarrow> fieldErrors s
              | ActionFailure serverError \<Rightarrow>
                  fieldErrors s @ form_errors (action_onError serverError))\<rparr>)"

text \<open>Modelled from the spec: events happen one at a time (spec 5).\<close>

definition run :: "sheet_state \<Rightarrow> event list \<Rightarrow> sheet_state" where
  "run s evs = foldl step s evs"

section \<open>The panel shell and the hook (lines 195-225)\<close>

record sheet =
  sheet_open :: bool
  onOpenChange :: dispatch
  sheet_nested :: "bool option"
  children :: ProgramApplicationSheetProps

definition ProgramApplicationSheet ::
  "bool \<Rightarrow> bool option \<Rightarrow> ProgramApplicationSheetProps \<Rightarrow> sheet" where
  "ProgramApplicationSheet isOpen nested rest =
     \<lparr>sheet_open = isOpen, onOpenChange = setIsOpen rest, sheet_nested = nested,
      children = rest\<rparr>"

text \<open>
  Modelled from the spec: \<^verbatim>\<open>useState\<close> of React is not in the source tree. The hook owns
  a boolean flag (spec 4.3): the first render stores the initial value, a later render
  reads what is stored, and each render gets the flag's setter.
\<close>

definition useState :: "bool \<Rightarrow> bool option \<Rightarrow> bool \<times> dispatch" where
  "useState initial stored =
     (case stored of None \<Rightarrow> (initial, UseStateSetter) | Some v \<Rightarrow> (v, UseStateSetter))"

record hook_result =
  programApplicationSheet :: sheet
  returned_setIsOpen :: dispatch

definition useProgramApplicationSheet :: "SheetHookProps \<Rightarrow> bool option \<Rightarrow> hook_result" where
  "useProgramApplicationSheet props stored =
     (case useState False stored of
        (isOpen, setter) \<Rightarrow>
          \<lparr>programApplicationSheet =
             ProgramApplicationSheet isOpen None
               \<lparr>program = program props, onSuccess = onSuccess props, setIsOpen = setter\<rparr>,
           returned_setIsOpen = setter\<rparr>)"

section \<open>The presence guard\<close>

text \<open>
  C8. Without a program the content component returns \<^verbatim>\<open>null\<close>: whatever the other
  props, the form errors and the form state are, there is no form, no field and no
  submit button.
\<close>

theorem C8_renders_nothing_without_program:
  "ProgramApplicationSheetContent (props\<lparr>program := None\<rparr>) errors fs = None"
  by (simp add: ProgramApplicationSheetContent_def)

text \<open>
  C4. When the program is absent or the partner's email is absent (no partner profile, or
  a profile without an email), the submit handler returns at once: the trace is empty, so
  there is no outbound call, no notification, no cache invalidation, no form error, and
  the open flag is what it was.
\<close>

theorem C4_guard_is_noop:
  assumes "program props = None \<or> optional_email partner = None"
  shows "onSubmit props partner data res = ([], Returned)
         \<and> calls (fst (onSubmit props partner data res)) = []
         \<and> isOpen_after (fst (onSubmit props partner data res)) cur = cur"
proof -
  have "onSubmit_payload (program props) partner data = None"
    using assms
    by (auto simp: onSubmit_payload_def optional_email_def split: option.splits)
  then have "onSubmit props partner data res = ([], Returned)"
    by (simp add: onSubmit_def)
  then show ?thesis
    by (simp add: isOpen_after_def)
qed

theorem C4_guard_is_noop_witness:
  "onSubmit \<lparr>program = None, onSuccess = None, setIsOpen = UseStateSetter\<rparr>
     (Some \<lparr>partner_email = Some ''a@b.com'', partner_name = ''A'', partner_website = None\<rparr>)
     \<lparr>proposal = ''I will blog'', comments = None, termsAgreement = True\<rparr> ActionSuccess
   = ([], Returned)"
  using C4_guard_is_noop
    [of "\<lparr>program = None, onSuccess = None, setIsOpen = UseStateSetter\<rparr>"
        "Some \<lparr>partner_email = Some ''a@b.com'', partner_name = ''A'', partner_website = None\<rparr>"
        "\<lparr>proposal = ''I will blog'', comments = None, termsAgreement = True\<rparr>" ActionSuccess]
  by simp

section \<open>What a submit attempt does\<close>

lemma calls_Invalid [simp]: "calls (map (\<lambda>(path, t). Invalid path t) errs) = []"
  by (induction errs) auto

lemma calls_append [simp]: "calls (xs @ ys) = calls xs @ calls ys"
  by (induction xs rule: calls.induct) auto

lemma calls_action_onSuccess [simp]: "calls (fst (action_onSuccess props)) = []"
  by (simp add: action_onSuccess_def split: option.splits)

lemma calls_executeAsync [simp]: "calls (fst (executeAsync props pl res)) = [pl]"
  by (simp add: executeAsync_def action_onError_def split: action_result.splits)

text \<open>A submit attempt reaches the outbound call exactly when validation passes and the
  guard of line 65 lets it through; then it is the one call of \<^verbatim>\<open>executeAsync\<close>.\<close>

lemma handleSubmit_called:
  assumes "calls (fst (handleSubmit props partner data res)) \<noteq> []"
  shows "\<exists>p pl. program props = Some p
           \<and> validateForm (registered (program props)) data = []
           \<and> onSubmit_payload (program props) partner data = Some pl
           \<and> handleSubmit props partner data res = executeAsync props pl res"
proof (cases "validateForm (registered (program props)) data")
  case (Cons e es)
  then have "calls (fst (handleSubmit props partner data res)) = []"
    by (simp add: handleSubmit_def del: list.map)
  with assms show ?thesis by simp
next
  case Nil
  show ?thesis
  proof (cases "onSubmit_payload (program props) partner data")
    case None
    with Nil have "handleSubmit props partner data res = ([], Returned)"
      by (simp add: handleSubmit_def onSubmit_def)
    with assms show ?thesis by simp
  next
    case (Some pl)
    then obtain p where "program props = Some p"
      by (auto simp: onSubmit_payload_def split: option.splits)
    with Nil Some show ?thesis
      by (simp add: handleSubmit_def onSubmit_def)
  qed
qed

lemma handleSubmit_valid:
  assumes "validateForm (registered (program props)) data = []"
    and "onSubmit_payload (program props) partner data = Some pl"
  shows "handleSubmit props partner data res = executeAsync props pl res"
  using assms by (simp add: handleSubmit_def onSubmit_def)

text \<open>
  C1. A submit attempt that made its outbound call and whose call succeeded has, after the
  call and in this order: the setter called with false, once; the cache key of the
  program's slug invalidated; the success notification, once; and the parent's callback
  invoked when one was given. The handler returns normally, and a flag held by the hook is
  false afterwards.
\<close>

theorem C1_success_side_effects:
  assumes "calls (fst (handleSubmit props partner data ActionSuccess)) \<noteq> []"
  shows "\<exists>p pl. program props = Some p
           \<and> handleSubmit props partner data ActionSuccess =
               ([ExecuteAsync pl,
                 SetIsOpen (setIsOpen props) False,
                 Mutate (''/api/partner-profile/programs/'' @ program_slug p),
                 ToastSuccess ''Application submitted!'']
                @ (case onSuccess props of None \<Rightarrow> [] | Some cb \<Rightarrow> [Invoke cb]),
                Returned)
           \<and> setIsOpen_calls (fst (handleSubmit props partner data ActionSuccess))
               = [(setIsOpen props, False)]
           \<and> mutated (fst (handleSubmit props partner data ActionSuccess))
               = [''/api/partner-profile/programs/'' @ program_slug p]
           \<and> success_toasts (fst (handleSubmit props partner data ActionSuccess))
               = [''Application submitted!'']
           \<and> invoked (fst (handleSubmit props partner data ActionSuccess))
               = (case onSuccess props of None \<Rightarrow> [] | Some cb \<Rightarrow> [cb])
           \<and> (setIsOpen props = UseStateSetter \<longrightarrow>
                \<not> isOpen_after (fst (handleSubmit props partner data ActionSuccess)) cur)"
proof -
  from handleSubmit_called [OF assms] obtain p pl where
    p: "program props = Some p" and
    h: "handleSubmit props partner data ActionSuccess = executeAsync props pl ActionSuccess"
    by blast
  have t: "handleSubmit props partner data ActionSuccess =
             ([ExecuteAsync pl,
               SetIsOpen (setIsOpen props) False,
               Mutate (''/api/partner-profile/programs/'' @ program_slug p),
               ToastSuccess ''Application submitted!'']
              @ (case onSuccess props of None \<Rightarrow> [] | Some cb \<Rightarrow> [Invoke cb]),
              Returned)"
    by (simp add: h executeAsync_def action_onSuccess_def p)
  show ?thesis
    by (rule exI [of _ p], rule exI [of _ pl])
       (simp add: t p isOpen_after_def split: option.splits)
qed

theorem C1_success_side_effects_witness:
  "handleSubmit
     \<lparr>program = Some \<lparr>program_id = ''prog_1'', program_slug = ''acme'', program_name = ''Acme'',
                      program_domain = ''acme.com'', program_logo = None,
                      program_termsUrl = Some ''https://x/terms''\<rparr>,
      onSuccess = Some ''refresh'', setIsOpen = UseStateSetter\<rparr>
     (Some \<lparr>partner_email = Some ''a@b.com'', partner_name = ''A'', partner_website = None\<rparr>)
     \<lparr>proposal = ''I will blog'', comments = None, termsAgreement = True\<rparr> ActionSuccess
   = ([ExecuteAsync \<lparr>proposal = ''I will blog'', comments = None, termsAgreement = True,
                     email = ''a@b.com'', name = ''A'', website = None,
                     programId = ''prog_1''\<rparr>,
       SetIsOpen UseStateSetter False,
       Mutate ''/api/partner-profile/programs/acme'',
       ToastSuccess ''Application submitted!'',
       Invoke ''refresh''],
      Returned)"
  using C1_success_side_effects
    [of "\<lparr>program = Some \<lparr>program_id = ''prog_1'', program_slug = ''acme'',
                           program_name = ''Acme'', program_domain = ''acme.com'',
                           program_logo = None,
                           program_termsUrl = Some ''https://x/terms''\<rparr>,
          onSuccess = Some ''refresh'', setIsOpen = UseStateSetter\<rparr>"
        "Some \<lparr>partner_email = Some ''a@b.com'', partner_name = ''A'', partner_website = None\<rparr>"
        "\<lparr>proposal = ''I will blog'', comments = None, termsAgreement = True\<rparr>"]
  by (simp add: handleSubmit_def onSubmit_def onSubmit_payload_def executeAsync_def
      action_onSuccess_def registered_def truthy_def validateField_def field_of_def)

text \<open>
  C2, the claim as stated, fails at a server message that is present and empty: the
  message attached and shown is the fallback, not the server's.
\<close>

theorem C2_counterexample:
  "handleSubmit
     \<lparr>program = Some \<lparr>program_id = ''prog_1'', program_slug = ''acme'', program_name = ''Acme'',
                      program_domain = ''acme.com'', program_logo = None,
                      program_termsUrl = None\<rparr>,
      onSuccess = None, setIsOpen = UseStateSetter\<rparr>
     (Some \<lparr>partner_email = Some ''a@b.com'', partner_name = ''A'', partner_website = None\<rparr>)
     \<lparr>proposal = ''I will blog'', comments = None, termsAgreement = False\<rparr>
     (ActionFailure (Some []))
   = ([ExecuteAsync \<lparr>proposal = ''I will blog'', comments = None, termsAgreement = False,
                     email = ''a@b.com'', name = ''A'', website = None,
                     programId = ''prog_1''\<rparr>,
       SetError ''root.serverError'' ''Failed to submit application'',
       ToastError ''Failed to submit application''],
      Returned)
   \<and> ''Failed to submit application'' \<noteq> []"
  by (simp add: handleSubmit_def onSubmit_def onSubmit_payload_def executeAsync_def
      action_onError_def or_else_def registered_def truthy_def validateField_def field_of_def)

text \<open>
  C2, amended. A submit attempt that made its outbound call and whose call failed has made
  that one call and no other, has not called the setter (a flag held by the hook is what
  it was, so an open panel stays open), and has attached one root-level form error and
  shown one error notification, both with the same message: the server's when the server
  supplied a non-empty one, the fallback \<^verbatim>\<open>Failed to submit application\<close> when it supplied
  none or an empty one.
\<close>

theorem C2_failure_side_effects:
  assumes "calls (fst (handleSubmit props partner data (ActionFailure serverError))) \<noteq> []"
  shows "\<exists>pl m. handleSubmit props partner data (ActionFailure serverError) =
               ([ExecuteAsync pl, SetError ''root.serverError'' m, ToastError m], Returned)
           \<and> (case serverError of
                 None \<Rightarrow> m = ''Failed to submit application''
               | Some s \<Rightarrow> if s = [] then m = ''Failed to submit application'' else m = s)
           \<and> calls (fst (handleSubmit props partner data (ActionFailure serverError))) = [pl]
           \<and> setIsOpen_calls (fst (handleSubmit props partner data (ActionFailure serverError)))
               = []
           \<and> isOpen_after (fst (handleSubmit props partner data (ActionFailure serverError))) cur
               = cur
           \<and> error_toasts (fst (handleSubmit props partner data (ActionFailure serverError)))
               = [m]"
proof -
  from handleSubmit_called [OF assms] obtain pl where
    h: "handleSubmit props partner data (ActionFailure serverError)
          = executeAsync props pl (ActionFailure serverError)"
    by blast
  let ?m = "or_else serverError ''Failed to submit application''"
  have t: "handleSubmit props partner data (ActionFailure serverError) =
             ([ExecuteAsync pl, SetError ''root.serverError'' ?m, ToastError ?m], Returned)"
    by (simp add: h executeAsync_def action_onError_def)
  have m: "case serverError of
             None \<Rightarrow> ?m = ''Failed to submit application''
           | Some s \<Rightarrow> if s = [] then ?m = ''Failed to submit application'' else ?m = s"
    by (simp add: or_else_def split: option.splits)
  show ?thesis
    by (rule exI [of _ pl], rule exI [of _ ?m]) (simp add: t m isOpen_after_def)
qed

theorem C2_failure_side_effects_witness:
  "handleSubmit
     \<lparr>program = Some \<lparr>program_id = ''prog_1'', program_slug = ''acme'', program_name = ''Acme'',
                      program_domain = ''acme.com'', program_logo = None,
                      program_termsUrl = None\<rparr>,
      onSuccess = None, setIsOpen = UseStateSetter\<rparr>
     (Some \<lparr>partner_email = Some ''a@b.com'', partner_name = ''A'', partner_website = None\<rparr>)
     \<lparr>proposal = ''I will blog'', comments = None, termsAgreement = False\<rparr>
     (ActionFailure (Some ''Already applied''))
   = ([ExecuteAsync \<lparr>proposal = ''I will blog'', comments = None, termsAgreement = False,
                     email = ''a@b.com'', name = ''A'', website = None,
                     programId = ''prog_1''\<rparr>,
       SetError ''root.serverError'' ''Already applied'',
       ToastError ''Already applied''],
      Returned)"
  using C2_failure_side_effects
    [of "\<lparr>program = Some \<lparr>program_id = ''prog_1'', program_slug = ''acme'',
                           program_name = ''Acme'', program_domain = ''acme.com'',
                           program_logo = None, program_termsUrl = None\<rparr>,
          onSuccess = None, setIsOpen = UseStateSetter\<rparr>"
        "Some \<lparr>partner_email = Some ''a@b.com'', partner_name = ''A'', partner_website = None\<rparr>"
        "\<lparr>proposal = ''I will blog'', comments = None, termsAgreement = False\<rparr>"
        "Some ''Already applied''"]
  by (simp add: handleSubmit_def onSubmit_def onSubmit_payload_def executeAsync_def
      action_onError_def or_else_def registered_def truthy_def validateField_def field_of_def)

text \<open>
  C6. A submit attempt that passes validation and the guard (a program, a partner, a
  non-empty email) makes exactly one outbound call, whatever the call then resolves to,
  and its payload is the form data merged with the partner's email, name and website
  and the program's id. In the scenario of the spec the call carries the proposal
  \<^verbatim>\<open>I will blog\<close>, the email \<^verbatim>\<open>a@b.com\<close>, the name \<^verbatim>\<open>A\<close>, the program's id and a true
  terms agreement; the panel then closes and the success toast is shown.
\<close>

theorem C6_payload:
  "(validateForm (registered (program props)) data = []
      \<and> program props = Some p \<and> partner = Some pa
      \<and> partner_email pa = Some e \<and> e \<noteq> [] \<longrightarrow>
    calls (fst (handleSubmit props partner data res)) =
      [\<lparr>proposal = proposal data, comments = comments data,
        termsAgreement = termsAgreement data,
        email = e, name = partner_name pa, website = partner_website pa,
        programId = program_id p\<rparr>])
   \<and> handleSubmit
       \<lparr>program = Some \<lparr>program_id = pid, program_slug = ''acme'', program_name = ''Acme'',
                        program_domain = dm, program_logo = lg,
                        program_termsUrl = Some ''https://x/terms''\<rparr>,
        onSuccess = None, setIsOpen = d\<rparr>
       (Some \<lparr>partner_email = Some ''a@b.com'', partner_name = ''A'', partner_website = w\<rparr>)
       \<lparr>proposal = ''I will blog'', comments = c, termsAgreement = True\<rparr> ActionSuccess
     = ([ExecuteAsync \<lparr>proposal = ''I will blog'', comments = c, termsAgreement = True,
                       email = ''a@b.com'', name = ''A'', website = w, programId = pid\<rparr>,
         SetIsOpen d False,
         Mutate ''/api/partner-profile/programs/acme'',
         ToastSuccess ''Application submitted!''],
        Returned)"
proof (intro conjI impI)
  assume a: "validateForm (registered (program props)) data = []
      \<and> program props = Some p \<and> partner = Some pa
      \<and> partner_email pa = Some e \<and> e \<noteq> []"
  let ?pl = "\<lparr>proposal = proposal data, comments = comments data,
        termsAgreement = termsAgreement data,
        email = e, name = partner_name pa, website = partner_website pa,
        programId = program_id p\<rparr>"
  from a have v: "validateForm (registered (program props)) data = []"
    by blast
  from a have "onSubmit_payload (program props) partner data = Some ?pl"
    by (simp add: onSubmit_payload_def)
  with v have "handleSubmit props partner data res = executeAsync props ?pl res"
    by (rule handleSubmit_valid)
  then show "calls (fst (handleSubmit props partner data res)) = [?pl]"
    by simp
next
  show "handleSubmit
       \<lparr>program = Some \<lparr>program_id = pid, program_slug = ''acme'', program_name = ''Acme'',
                        program_domain = dm, program_logo = lg,
                        program_termsUrl = Some ''https://x/terms''\<rparr>,
        onSuccess = None, setIsOpen = d\<rparr>
       (Some \<lparr>partner_email = Some ''a@b.com'', partner_name = ''A'', partner_website = w\<rparr>)
       \<lparr>proposal = ''I will blog'', comments = c, termsAgreement = True\<rparr> ActionSuccess
     = ([ExecuteAsync \<lparr>proposal = ''I will blog'', comments = c, termsAgreement = True,
                       email = ''a@b.com'', name = ''A'', website = w, programId = pid\<rparr>,
         SetIsOpen d False,
         Mutate ''/api/partner-profile/programs/acme'',
         ToastSuccess ''Application submitted!''],
        Returned)"
    by (simp add: handleSubmit_def onSubmit_def onSubmit_payload_def executeAsync_def
        action_onSuccess_def registered_def truthy_def validateField_def field_of_def)
qed

theorem C6_payload_witness:
  "calls (fst (handleSubmit
     \<lparr>program = Some \<lparr>program_id = ''prog_1'', program_slug = ''acme'', program_name = ''Acme'',
                      program_domain = ''acme.com'', program_logo = None,
                      program_termsUrl = Some ''https://x/terms''\<rparr>,
      onSuccess = None, setIsOpen = UseStateSetter\<rparr>
     (Some \<lparr>partner_email = Some ''a@b.com'', partner_name = ''A'',
            partner_website = Some ''https://a.example''\<rparr>)
     \<lparr>proposal = ''I will blog'', comments = Some ''Thanks'', termsAgreement = True\<rparr>
     (ActionFailure None)))
   = [\<lparr>proposal = ''I will blog'', comments = Some ''Thanks'', termsAgreement = True,
       email = ''a@b.com'', name = ''A'', website = Some ''https://a.example'',
       programId = ''prog_1''\<rparr>]"
proof -
  let ?p = "\<lparr>program_id = ''prog_1'', program_slug = ''acme'', program_name = ''Acme'',
             program_domain = ''acme.com'', program_logo = None,
             program_termsUrl = Some ''https://x/terms''\<rparr>"
  let ?props = "\<lparr>program = Some ?p, onSuccess = None, setIsOpen = UseStateSetter\<rparr>"
  let ?pa = "\<lparr>partner_email = Some ''a@b.com'', partner_name = ''A'',
              partner_website = Some ''https://a.example''\<rparr>"
  let ?data = "\<lparr>proposal = ''I will blog'', comments = Some ''Thanks'', termsAgreement = True\<rparr>"
  have v: "validateForm (registered (program ?props)) ?data = []"
    by (simp add: registered_def truthy_def validateField_def field_of_def)
  have "validateForm (registered (program ?props)) ?data = []
      \<and> program ?props = Some ?p \<and> Some ?pa = Some ?pa
      \<and> partner_email ?pa = Some ''a@b.com'' \<and> ''a@b.com'' \<noteq> []"
    using v by simp
  with C6_payload [of ?props ?data ?p "Some ?pa" ?pa "''a@b.com''" "ActionFailure None"]
  show ?thesis by simp
qed

section \<open>The non-null assertion\<close>

text \<open>On its own the success handler does fail when there is no program: it throws at the
  property read, after the setter has been called.\<close>

lemma action_onSuccess_without_program:
  "action_onSuccess \<lparr>program = None, onSuccess = cb, setIsOpen = d\<rparr>
     = ([SetIsOpen d False], Threw TypeError)"
  by (simp add: action_onSuccess_def)

lemma calls_handleSubmit:
  "calls (fst (handleSubmit props partner data res)) =
     (if validateForm (registered (program props)) data = []
      then (case onSubmit_payload (program props) partner data of
              None \<Rightarrow> [] | Some pl \<Rightarrow> [pl])
      else [])"
proof (cases "validateForm (registered (program props)) data")
  case Nil
  then show ?thesis
    by (simp add: handleSubmit_def onSubmit_def split: option.splits)
next
  case (Cons e es)
  then show ?thesis
    by (simp add: handleSubmit_def del: list.map)
qed

lemma onSubmit_payload_program:
  "onSubmit_payload prog partner data = Some pl \<Longrightarrow> prog \<noteq> None"
  by (cases prog) (simp_all add: onSubmit_payload_def)

lemma setIsOpen_calls_Invalid [simp]:
  "setIsOpen_calls (map (\<lambda>(path, t). Invalid path t) errs) = []"
  by (induction errs) auto

text \<open>
  When the success callback is the one of the render that made the call, it never throws:
  the submit handler and the whole attempt return normally for every program (present
  or not), partner, form data and call result, and whenever the setter was called or a
  call was made, the program is defined.
\<close>

lemma same_render_returns:
  "snd (onSubmit props partner data res) = Returned
   \<and> snd (handleSubmit props partner data res) = Returned
   \<and> (setIsOpen_calls (fst (handleSubmit props partner data res)) \<noteq> []
        \<longrightarrow> program props \<noteq> None)
   \<and> (calls (fst (onSubmit props partner data res)) \<noteq> [] \<longrightarrow> program props \<noteq> None)"
proof -
  have ex: "snd (executeAsync props pl res) = Returned"
    if "onSubmit_payload (program props) partner data = Some pl" for pl
  proof -
    from that obtain p where "program props = Some p"
      using onSubmit_payload_program by fastforce
    then show ?thesis
      by (simp add: executeAsync_def action_onSuccess_def split: action_result.splits)
  qed
  have os: "snd (onSubmit props partner data res) = Returned"
    using ex by (simp add: onSubmit_def split: option.splits)
  have hs: "snd (handleSubmit props partner data res) = Returned"
    using os by (simp add: handleSubmit_def split: list.splits)
  have so: "program props \<noteq> None"
    if "setIsOpen_calls (fst (handleSubmit props partner data res)) \<noteq> []"
  proof (cases "validateForm (registered (program props)) data")
    case Nil
    with that have "onSubmit_payload (program props) partner data \<noteq> None"
      by (cases "onSubmit_payload (program props) partner data")
         (simp_all add: handleSubmit_def onSubmit_def)
    then show ?thesis
      using onSubmit_payload_program by fastforce
  next
    case (Cons e es)
    with that show ?thesis
      by (simp add: handleSubmit_def del: list.map)
  qed
  have co: "program props \<noteq> None"
    if "calls (fst (onSubmit props partner data res)) \<noteq> []"
  proof -
    from that have "onSubmit_payload (program props) partner data \<noteq> None"
      by (cases "onSubmit_payload (program props) partner data")
         (simp_all add: onSubmit_def)
    then show ?thesis
      using onSubmit_payload_program by fastforce
  qed
  from os hs so co show ?thesis by blast
qed

lemma handleSubmit_settled_same_render:
  "handleSubmit_settled props props partner data res = handleSubmit props partner data res"
proof -
  have "onSubmit_settled props props partner data res = onSubmit props partner data res"
    by (simp add: onSubmit_settled_def onSubmit_def)
  then show ?thesis
    unfolding handleSubmit_settled_def handleSubmit_def by (rule arg_cong)
qed


section \<open>Validation\<close>

lemma validateForm_append [simp]:
  "validateForm (fs @ gs) data = validateForm fs data @ validateForm gs data"
  by (induction fs) (auto split: option.splits)

lemma Invalid_in_trace:
  assumes "validateForm (registered (program props)) data = errs" and "(path, t) \<in> set errs"
  shows "Invalid path t \<in> set (fst (handleSubmit props partner data res))"
proof -
  from assms obtain e es where c: "validateForm (registered (program props)) data = e # es"
    by (cases errs) auto
  with assms have "(path, t) \<in> set (e # es)" by simp
  then have "Invalid path t \<in> (\<lambda>(path, t). Invalid path t) ` set (e # es)"
    by force
  then show ?thesis
    using c by (simp add: handleSubmit_def del: list.map set_simps)
qed

lemma form_errors_Invalid [simp]:
  "form_errors (map (\<lambda>(path, t). Invalid path t) errs) = map fst errs"
  by (induction errs) auto

lemma onSubmit_payload_termsAgreement:
  "(onSubmit_payload prog partner (data\<lparr>termsAgreement := b\<rparr>) = None)
     = (onSubmit_payload prog partner data = None)"
  by (simp add: onSubmit_payload_def split: option.splits)

text \<open>
  C3, the claim as stated, fails at a terms URL that is present and empty: the checkbox
  is unchecked and the submission is not blocked.
\<close>

theorem C3_counterexample:
  "calls (fst (handleSubmit
     \<lparr>program = Some \<lparr>program_id = ''prog_1'', program_slug = ''acme'', program_name = ''Acme'',
                      program_domain = ''acme.com'', program_logo = None,
                      program_termsUrl = Some []\<rparr>,
      onSuccess = None, setIsOpen = UseStateSetter\<rparr>
     (Some \<lparr>partner_email = Some ''a@b.com'', partner_name = ''A'', partner_website = None\<rparr>)
     \<lparr>proposal = ''I will blog'', comments = None, termsAgreement = False\<rparr>
     ActionSuccess))
   = [\<lparr>proposal = ''I will blog'', comments = None, termsAgreement = False,
       email = ''a@b.com'', name = ''A'', website = None, programId = ''prog_1''\<rparr>]"
  by (simp add: handleSubmit_def onSubmit_def onSubmit_payload_def executeAsync_def
      action_onSuccess_def registered_def truthy_def validateField_def field_of_def)

text \<open>
  C3, amended. With the form rendered: if \<^verbatim>\<open>program.termsUrl\<close> is a non-empty string, a
  submit attempt with the checkbox not checked is blocked (no outbound call, and the
  field gets a required error), while a checked box raises no error on that field; if
  \<^verbatim>\<open>program.termsUrl\<close> is absent or empty, the checkbox is not rendered and not
  registered, and the field's value changes neither the validation result nor whether
  the call is made.
\<close>

theorem C3_terms_agreement:
  assumes "program props = Some p"
  shows "(truthy (program_termsUrl p) \<and> \<not> termsAgreement data \<longrightarrow>
            calls (fst (handleSubmit props partner data res)) = []
            \<and> Invalid ''termsAgreement'' ''required''
                \<in> set (fst (handleSubmit props partner data res)))
       \<and> (truthy (program_termsUrl p) \<and> termsAgreement data \<longrightarrow>
            ''termsAgreement'' \<notin> fst ` set (validateForm (registered (program props)) data))
       \<and> (\<not> truthy (program_termsUrl p) \<longrightarrow>
            map_option terms_checkbox (ProgramApplicationSheetContent props errors fs)
              = Some None
            \<and> ''termsAgreement'' \<notin> fst ` set (registered (program props))
            \<and> validateForm (registered (program props)) (data\<lparr>termsAgreement := b\<rparr>)
                = validateForm (registered (program props)) data
            \<and> ((calls (fst (handleSubmit props partner (data\<lparr>termsAgreement := b\<rparr>) res)) = [])
                = (calls (fst (handleSubmit props partner data res)) = [])))"
proof (intro conjI impI)
  assume a: "truthy (program_termsUrl p) \<and> \<not> termsAgreement data"
  have m: "(''termsAgreement'', ''required'')
             \<in> set (validateForm (registered (program props)) data)"
    using a assms by (simp add: registered_def validateField_def field_of_def)
  then have "validateForm (registered (program props)) data \<noteq> []"
    by auto
  then show "calls (fst (handleSubmit props partner data res)) = []"
    by (simp add: calls_handleSubmit)
  show "Invalid ''termsAgreement'' ''required''
          \<in> set (fst (handleSubmit props partner data res))"
    using m by (rule Invalid_in_trace [OF refl])
next
  assume "truthy (program_termsUrl p) \<and> termsAgreement data"
  then show "''termsAgreement'' \<notin> fst ` set (validateForm (registered (program props)) data)"
    using assms
    by (simp add: registered_def validateField_def field_of_def split: option.splits)
next
  assume n: "\<not> truthy (program_termsUrl p)"
  show "map_option terms_checkbox (ProgramApplicationSheetContent props errors fs) = Some None"
    using n assms by (simp add: ProgramApplicationSheetContent_def)
  show "''termsAgreement'' \<notin> fst ` set (registered (program props))"
    using n assms by (simp add: registered_def)
  show v: "validateForm (registered (program props)) (data\<lparr>termsAgreement := b\<rparr>)
             = validateForm (registered (program props)) data"
    using n assms by (simp add: registered_def validateField_def field_of_def)
  show "(calls (fst (handleSubmit props partner (data\<lparr>termsAgreement := b\<rparr>) res)) = [])
          = (calls (fst (handleSubmit props partner data res)) = [])"
    using onSubmit_payload_termsAgreement
      [where prog = "program props" and partner = partner and data = data and b = b]
    by (cases "onSubmit_payload (program props) partner data";
        cases "onSubmit_payload (program props) partner (data\<lparr>termsAgreement := b\<rparr>)")
       (simp_all add: calls_handleSubmit v)
qed

theorem C3_terms_agreement_witness:
  "calls (fst (handleSubmit
     \<lparr>program = Some \<lparr>program_id = ''prog_1'', program_slug = ''acme'', program_name = ''Acme'',
                      program_domain = ''acme.com'', program_logo = None,
                      program_termsUrl = Some ''https://x/terms''\<rparr>,
      onSuccess = None, setIsOpen = UseStateSetter\<rparr>
     (Some \<lparr>partner_email = Some ''a@b.com'', partner_name = ''A'', partner_website = None\<rparr>)
     \<lparr>proposal = ''I will blog'', comments = None, termsAgreement = False\<rparr>
     ActionSuccess)) = []
   \<and> map_option terms_checkbox
       (ProgramApplicationSheetContent
          \<lparr>program = Some \<lparr>program_id = ''prog_2'', program_slug = ''open'',
                           program_name = ''Open'', program_domain = ''open.org'',
                           program_logo = None, program_termsUrl = None\<rparr>,
           onSuccess = None, setIsOpen = UseStateSetter\<rparr> [] useForm_initial)
     = Some None"
proof -
  let ?p = "\<lparr>program_id = ''prog_1'', program_slug = ''acme'', program_name = ''Acme'',
             program_domain = ''acme.com'', program_logo = None,
             program_termsUrl = Some ''https://x/terms''\<rparr>"
  let ?q = "\<lparr>program_id = ''prog_2'', program_slug = ''open'', program_name = ''Open'',
             program_domain = ''open.org'', program_logo = None, program_termsUrl = None\<rparr>"
  let ?data = "\<lparr>proposal = ''I will blog'', comments = None, termsAgreement = False\<rparr>"
  have 1: "truthy (program_termsUrl ?p) \<and> \<not> termsAgreement ?data"
    by (simp add: truthy_def)
  have 2: "\<not> truthy (program_termsUrl ?q)"
    by (simp add: truthy_def)
  from 1 C3_terms_agreement
    [where props = "\<lparr>program = Some ?p, onSuccess = None, setIsOpen = UseStateSetter\<rparr>"
       and p = ?p and data = ?data and res = ActionSuccess
       and partner = "Some \<lparr>partner_email = Some ''a@b.com'', partner_name = ''A'',
                             partner_website = None\<rparr>"]
  have a: "calls (fst (handleSubmit
             \<lparr>program = Some ?p, onSuccess = None, setIsOpen = UseStateSetter\<rparr>
             (Some \<lparr>partner_email = Some ''a@b.com'', partner_name = ''A'',
                    partner_website = None\<rparr>)
             ?data ActionSuccess)) = []"
    by simp
  from 2 C3_terms_agreement
    [where props = "\<lparr>program = Some ?q, onSuccess = None, setIsOpen = UseStateSetter\<rparr>"
       and p = ?q and errors = "[]" and fs = useForm_initial]
  have b: "map_option terms_checkbox
             (ProgramApplicationSheetContent
                \<lparr>program = Some ?q, onSuccess = None, setIsOpen = UseStateSetter\<rparr>
                [] useForm_initial) = Some None"
    by simp
  from a b show ?thesis by simp
qed

lemma comments_never_invalid:
  "''comments'' \<notin> fst ` set (validateForm (registered prog) data)"
  by (cases prog)
     (simp_all add: registered_def validateField_def field_of_def split: option.splits)

text \<open>
  C5. With the form rendered, a submit attempt with an empty proposal is blocked: there is
  no outbound call, the proposal field gets a required error, and the next render shows
  the proposal text area in its error styling. The comments field is never required: it
  is registered without the rule, and no validation ever puts an error on it.
\<close>

theorem C5_proposal_required:
  assumes "program props = Some p" and "proposal data = []"
  shows "calls (fst (handleSubmit props partner data res)) = []
       \<and> Invalid ''proposal'' ''required'' \<in> set (fst (handleSubmit props partner data res))
       \<and> map_option proposal_error_style
            (ProgramApplicationSheetContent props
               (form_errors (fst (handleSubmit props partner data res))) fs) = Some True
       \<and> ''comments'' \<notin> fst ` set (validateForm (registered prog') data')
       \<and> (\<forall>r. (''comments'', r) \<in> set (registered prog') \<longrightarrow> \<not> required r)"
proof (intro conjI)
  have m: "(''proposal'', ''required'') \<in> set (validateForm (registered (program props)) data)"
    using assms by (simp add: registered_def validateField_def field_of_def)
  then obtain e es where c: "validateForm (registered (program props)) data = e # es"
    by (cases "validateForm (registered (program props)) data") auto
  then show "calls (fst (handleSubmit props partner data res)) = []"
    by (simp add: calls_handleSubmit)
  show "Invalid ''proposal'' ''required'' \<in> set (fst (handleSubmit props partner data res))"
    using m by (rule Invalid_in_trace [OF refl])
  have "form_errors (fst (handleSubmit props partner data res)) = map fst (e # es)"
    using c by (simp add: handleSubmit_def del: list.map)
  moreover have "''proposal'' \<in> set (map fst (e # es))"
    using m c by force
  ultimately show "map_option proposal_error_style
            (ProgramApplicationSheetContent props
               (form_errors (fst (handleSubmit props partner data res))) fs) = Some True"
    using assms by (simp add: ProgramApplicationSheetContent_def del: list.map set_simps)
  show "''comments'' \<notin> fst ` set (validateForm (registered prog') data')"
    by (rule comments_never_invalid)
  show "\<forall>r. (''comments'', r) \<in> set (registered prog') \<longrightarrow> \<not> required r"
    by (cases prog') (auto simp: registered_def)
qed

theorem C5_proposal_required_witness:
  "fst (handleSubmit
     \<lparr>program = Some \<lparr>program_id = ''prog_1'', program_slug = ''acme'', program_name = ''Acme'',
                      program_domain = ''acme.com'', program_logo = None,
                      program_termsUrl = None\<rparr>,
      onSuccess = None, setIsOpen = UseStateSetter\<rparr>
     (Some \<lparr>partner_email = Some ''a@b.com'', partner_name = ''A'', partner_website = None\<rparr>)
     \<lparr>proposal = [], comments = None, termsAgreement = False\<rparr>
     ActionSuccess) = [Invalid ''proposal'' ''required'']"
  using C5_proposal_required
    [where props = "\<lparr>program = Some \<lparr>program_id = ''prog_1'', program_slug = ''acme'',
                                      program_name = ''Acme'', program_domain = ''acme.com'',
                                      program_logo = None, program_termsUrl = None\<rparr>,
                     onSuccess = None, setIsOpen = UseStateSetter\<rparr>"
       and p = "\<lparr>program_id = ''prog_1'', program_slug = ''acme'',
                  program_name = ''Acme'', program_domain = ''acme.com'',
                  program_logo = None, program_termsUrl = None\<rparr>"
       and data = "\<lparr>proposal = [], comments = None, termsAgreement = False\<rparr>"]
  by (simp add: handleSubmit_def registered_def truthy_def validateField_def field_of_def)

section \<open>The hook's flag\<close>

lemma isOpen_after_unchanged:
  "\<forall>e \<in> set es. \<forall>v. e \<noteq> SetIsOpen UseStateSetter v \<Longrightarrow> isOpen_after es cur = cur"
  unfolding isOpen_after_def
proof (induction es arbitrary: cur)
  case Nil
  then show ?case by simp
next
  case (Cons e es)
  then have "reduce_isOpen cur e = cur"
    by (cases e) auto
  with Cons show ?case by simp
qed

text \<open>
  C10. The hook's flag starts false, so the panel starts closed; the panel element it
  returns is open exactly when the flag is, and both the panel shell and the content
  inside it are given the setter that the hook returns. Calling that setter sets the
  flag, and a run of effects in which that setter is not called leaves the flag as it
  was.
\<close>

theorem C10_hook_owns_flag:
  "sheet_open (programApplicationSheet (useProgramApplicationSheet props None)) = False
   \<and> sheet_open (programApplicationSheet (useProgramApplicationSheet props (Some b))) = b
   \<and> onOpenChange (programApplicationSheet (useProgramApplicationSheet props stored))
       = returned_setIsOpen (useProgramApplicationSheet props stored)
   \<and> setIsOpen (children (programApplicationSheet (useProgramApplicationSheet props stored)))
       = returned_setIsOpen (useProgramApplicationSheet props stored)
   \<and> isOpen_after [SetIsOpen (returned_setIsOpen (useProgramApplicationSheet props stored)) b]
        cur = b
   \<and> ((\<forall>e \<in> set es. \<forall>v.
          e \<noteq> SetIsOpen (returned_setIsOpen (useProgramApplicationSheet props stored)) v)
        \<longrightarrow> isOpen_after es cur = cur)"
proof -
  have r: "returned_setIsOpen (useProgramApplicationSheet props stored) = UseStateSetter"
    by (simp add: useProgramApplicationSheet_def useState_def split: option.splits)
  show ?thesis
    unfolding r
    by (auto simp: useProgramApplicationSheet_def useState_def ProgramApplicationSheet_def
        isOpen_after_def isOpen_after_unchanged [unfolded isOpen_after_def]
        split: option.splits)
qed

theorem C10_hook_owns_flag_witness:
  "isOpen_after
     [ToastError ''Already applied'', SetIsOpen (ParentSetter ''other'') False] True = True"
  using C10_hook_owns_flag
    [where es = "[ToastError ''Already applied'', SetIsOpen (ParentSetter ''other'') False]"
       and cur = True and stored = None
       and props = "\<lparr>program = None, onSuccess = None\<rparr>"]
  by (simp add: useProgramApplicationSheet_def useState_def)

section \<open>At most one call in flight\<close>

lemma rendered_loading:
  "program props = Some p \<Longrightarrow>
     map_option loading (ProgramApplicationSheetContent props errors fs)
       = Some (button_loading fs)"
  by (simp add: ProgramApplicationSheetContent_def)

lemma step_Click_loading:
  assumes "button_loading (formState s)"
  shows "step s (Click props partner data) = s"
  using assms by (cases "program props") (simp_all add: ProgramApplicationSheetContent_def)

lemma step_invariant:
  assumes "length (in_flight (formState s)) \<le> 1"
    and "in_flight (formState s) \<noteq> [] \<longrightarrow> isSubmitting (formState s)"
  shows "length (in_flight (formState (step s ev))) \<le> 1
         \<and> (in_flight (formState (step s ev)) \<noteq> [] \<longrightarrow> isSubmitting (formState (step s ev)))"
proof (cases ev)
  case (Click props partner data)
  show ?thesis
  proof (cases "button_loading (formState s)")
    case True
    with Click assms show ?thesis
      by (simp only: step_Click_loading)
  next
    case False
    with assms have "in_flight (formState s) = []"
      by (auto simp: button_loading_def)
    with Click False show ?thesis
      by (cases "program props")
         (simp_all add: ProgramApplicationSheetContent_def split: list.splits option.splits)
  qed
next
  case (Settle res)
  with assms show ?thesis
    by (cases "in_flight (formState s)") auto
qed

lemma run_invariant:
  assumes "length (in_flight (formState s)) \<le> 1"
    and "in_flight (formState s) \<noteq> [] \<longrightarrow> isSubmitting (formState s)"
  shows "length (in_flight (formState (run s evs))) \<le> 1
         \<and> (in_flight (formState (run s evs)) \<noteq> [] \<longrightarrow> isSubmitting (formState (run s evs)))"
  using assms unfolding run_def
proof (induction evs arbitrary: s)
  case Nil
  then show ?case by simp
next
  case (Cons ev evs)
  from step_invariant [OF Cons.prems, of ev] Cons.IH [of "step s ev"]
  show ?case by simp
qed

lemma step_after_success:
  assumes "isSubmitSuccessful (formState s)" and "in_flight (formState s) = []"
  shows "step s ev = s"
proof (cases ev)
  case (Click props partner data)
  from assms have "button_loading (formState s)"
    by (simp add: button_loading_def)
  with Click show ?thesis
    by (simp only: step_Click_loading)
next
  case (Settle res)
  with assms show ?thesis by simp
qed

lemma run_after_success:
  assumes "isSubmitSuccessful (formState s)" and "in_flight (formState s) = []"
  shows "run s evs = s"
  using assms unfolding run_def
  by (induction evs) (simp_all add: step_after_success)

text \<open>
  C7. From the component's initial state and along every sequence of clicks and settled
  calls, under any props and partner profile at each click: at most one outbound call is
  in flight; while one is in flight the submit button that the component renders for a
  program is loading, and a click changes nothing; and once the call in flight has
  settled with success the rendered button is loading at every later moment and no call
  is in flight.
\<close>

theorem C7_single_call_in_flight:
  "length (in_flight (formState (run sheet_initial evs))) \<le> 1
   \<and> (in_flight (formState (run sheet_initial evs)) \<noteq> [] \<longrightarrow>
        (program props = Some p \<longrightarrow>
           map_option loading
             (ProgramApplicationSheetContent props
                (fieldErrors (run sheet_initial evs)) (formState (run sheet_initial evs)))
             = Some True)
        \<and> step (run sheet_initial evs) (Click props' partner data) = run sheet_initial evs
        \<and> (program props = Some p \<longrightarrow>
             map_option loading
               (ProgramApplicationSheetContent props
                  (fieldErrors (run sheet_initial (evs @ Settle ActionSuccess # later)))
                  (formState (run sheet_initial (evs @ Settle ActionSuccess # later))))
               = Some True)
        \<and> in_flight (formState (run sheet_initial (evs @ Settle ActionSuccess # later))) = [])"
proof -
  let ?s = "run sheet_initial evs"
  let ?t = "run sheet_initial (evs @ Settle ActionSuccess # later)"
  have inv: "length (in_flight (formState ?s)) \<le> 1
             \<and> (in_flight (formState ?s) \<noteq> [] \<longrightarrow> isSubmitting (formState ?s))"
    by (rule run_invariant) (simp_all add: sheet_initial_def useForm_initial_def)
  have after: "button_loading (formState ?t) \<and> in_flight (formState ?t) = []"
    if "in_flight (formState ?s) \<noteq> []"
  proof -
    let ?g = "step ?s (Settle ActionSuccess)"
    from that inv obtain pl where "in_flight (formState ?s) = [pl]"
      by (cases "in_flight (formState ?s)") auto
    then have s: "isSubmitSuccessful (formState ?g)" and e: "in_flight (formState ?g) = []"
      by simp_all
    have "?t = run ?g later"
      by (simp add: run_def)
    also have "\<dots> = ?g"
      using s e by (rule run_after_success)
    finally show ?thesis
      using s e by (simp add: button_loading_def)
  qed
  have now: "button_loading (formState ?s)" if "in_flight (formState ?s) \<noteq> []"
    using that inv by (simp add: button_loading_def)
  show ?thesis
  proof (intro conjI impI)
    show "length (in_flight (formState ?s)) \<le> 1"
      using inv by simp
  next
    assume "in_flight (formState ?s) \<noteq> []" and "program props = Some p"
    then show "map_option loading
                 (ProgramApplicationSheetContent props (fieldErrors ?s) (formState ?s))
                 = Some True"
      using now by (simp add: rendered_loading)
  next
    assume "in_flight (formState ?s) \<noteq> []"
    then have "button_loading (formState ?s)"
      by (rule now)
    then show "step ?s (Click props' partner data) = ?s"
      by (rule step_Click_loading)
  next
    assume "in_flight (formState ?s) \<noteq> []" and "program props = Some p"
    then show "map_option loading
                 (ProgramApplicationSheetContent props (fieldErrors ?t) (formState ?t))
                 = Some True"
      using after by (simp add: rendered_loading)
  next
    assume "in_flight (formState ?s) \<noteq> []"
    then show "in_flight (formState ?t) = []"
      using after by simp
  qed
qed

theorem C7_single_call_in_flight_witness:
  "in_flight (formState (run sheet_initial
     [Click \<lparr>program = Some \<lparr>program_id = ''prog_1'', program_slug = ''acme'',
                             program_name = ''Acme'', program_domain = ''acme.com'',
                             program_logo = None, program_termsUrl = None\<rparr>,
             onSuccess = None, setIsOpen = UseStateSetter\<rparr>
            (Some \<lparr>partner_email = Some ''a@b.com'', partner_name = ''A'',
                   partner_website = None\<rparr>)
            \<lparr>proposal = ''I will blog'', comments = Some [], termsAgreement = False\<rparr>]))
     \<noteq> []
   \<and> map_option loading
       (ProgramApplicationSheetContent
          \<lparr>program = Some \<lparr>program_id = ''prog_1'', program_slug = ''acme'',
                           program_name = ''Acme'', program_domain = ''acme.com'',
                           program_logo = None, program_termsUrl = None\<rparr>,
           onSuccess = None, setIsOpen = UseStateSetter\<rparr>
          (fieldErrors (run sheet_initial
            [Click \<lparr>program = Some \<lparr>program_id = ''prog_1'', program_slug = ''acme'',
                                    program_name = ''Acme'', program_domain = ''acme.com'',
                                    program_logo = None, program_termsUrl = None\<rparr>,
                    onSuccess = None, setIsOpen = UseStateSetter\<rparr>
                   (Some \<lparr>partner_email = Some ''a@b.com'', partner_name = ''A'',
                          partner_website = None\<rparr>)
                   \<lparr>proposal = ''I will blog'', comments = Some [], termsAgreement = False\<rparr>]))
          (formState (run sheet_initial
            [Click \<lparr>program = Some \<lparr>program_id = ''prog_1'', program_slug = ''acme'',
                                    program_name = ''Acme'', program_domain = ''acme.com'',
                                    program_logo = None, program_termsUrl = None\<rparr>,
                    onSuccess = None, setIsOpen = UseStateSetter\<rparr>
                   (Some \<lparr>partner_email = Some ''a@b.com'', partner_name = ''A'',
                          partner_website = None\<rparr>)
                   \<lparr>proposal = ''I will blog'', comments = Some [], termsAgreement = False\<rparr>])))
     = Some True"
proof -
  let ?p = "\<lparr>program_id = ''prog_1'', program_slug = ''acme'', program_name = ''Acme'',
             program_domain = ''acme.com'', program_logo = None, program_termsUrl = None\<rparr>"
  let ?props = "\<lparr>program = Some ?p, onSuccess = None, setIsOpen = UseStateSetter\<rparr>"
  let ?ev = "Click ?props
                   (Some \<lparr>partner_email = Some ''a@b.com'', partner_name = ''A'',
                          partner_website = None\<rparr>)
                   \<lparr>proposal = ''I will blog'', comments = Some [], termsAgreement = False\<rparr>"
  have 1: "in_flight (formState (run sheet_initial [?ev])) \<noteq> []"
    by (simp add: run_def sheet_initial_def useForm_initial_def button_loading_def
        ProgramApplicationSheetContent_def registered_def truthy_def validateField_def
        field_of_def onSubmit_payload_def)
  have 2: "program ?props = Some ?p"
    by simp
  from 1 2 C7_single_call_in_flight [where evs = "[?ev]" and props = ?props and p = ?p]
  show ?thesis by blast
qed

end
